theory Spec2Isabelle
  imports Complex_Main "HOL-Library.Word" "HOL-Library.Char_ord" "HOL-Library.List_Lexorder"
begin

section \<open>Terminal output\<close>

text \<open>
  The program reports to the user through \<^verbatim>\<open>Terminal::printError\<close>,
  \<^verbatim>\<open>printSuccess\<close>, \<^verbatim>\<open>printWarning\<close> and \<^verbatim>\<open>printInfo\<close>. The model
  records each call as one message, in the order of the calls; colours, headers, the
  progress bar and the pauses are not modelled.
\<close>

datatype message = Error string | Success string | Warning string | Info string

section \<open>Character classes of the C locale\<close>

text \<open>
  The program never calls \<^verbatim>\<open>setlocale\<close>, so \<^verbatim>\<open>islower\<close>, \<^verbatim>\<open>isupper\<close>,
  \<^verbatim>\<open>isdigit\<close>, \<^verbatim>\<open>isalnum\<close> and \<^verbatim>\<open>isspace\<close> are those of the "C" locale, given
  here on the byte value of the character. A byte above 127 is in none of the classes
  (the source passes a plain \<^verbatim>\<open>char\<close>, so this is the answer for the byte read as
  \<^verbatim>\<open>unsigned char\<close>).
\<close>

definition islower :: "char \<Rightarrow> bool" where
  "islower c = (97 \<le> (of_char c :: nat) \<and> (of_char c :: nat) \<le> 122)"

definition isupper :: "char \<Rightarrow> bool" where
  "isupper c = (65 \<le> (of_char c :: nat) \<and> (of_char c :: nat) \<le> 90)"

definition isdigit :: "char \<Rightarrow> bool" where
  "isdigit c = (48 \<le> (of_char c :: nat) \<and> (of_char c :: nat) \<le> 57)"

definition isalpha :: "char \<Rightarrow> bool" where
  "isalpha c = (isupper c \<or> islower c)"

definition isalnum :: "char \<Rightarrow> bool" where
  "isalnum c = (isalpha c \<or> isdigit c)"

text \<open>
  A character that takes the final \<^verbatim>\<open>else\<close> of the classification: neither a letter
  nor a digit.
\<close>

definition isspecial :: "char \<Rightarrow> bool" where
  "isspecial c = (\<not> isalpha c \<and> \<not> isdigit c)"

definition isspace :: "char \<Rightarrow> bool" where
  "isspace c = ((of_char c :: nat) = 32 \<or> (9 \<le> (of_char c :: nat) \<and> (of_char c :: nat) \<le> 13))"

section \<open>Strength evaluator (\<^verbatim>\<open>StandardPasswordChecker\<close>)\<close>

text \<open>
  Both methods of the checker run the same loop over the password, setting four flags.
  \<^verbatim>\<open>scanStep\<close> is the body of that loop (the \<^verbatim>\<open>if / else if\<close> chain in the
  source's order) and \<^verbatim>\<open>scan\<close> the loop, started with all flags false.
\<close>

record flags =
  hasLower :: bool
  hasUpper :: bool
  hasDigit :: bool
  hasSpecial :: bool

definition noFlags :: flags where
  "noFlags = \<lparr>hasLower = False, hasUpper = False, hasDigit = False, hasSpecial = False\<rparr>"

definition scanStep :: "flags \<Rightarrow> char \<Rightarrow> flags" where
  "scanStep f c =
     (if islower c then f\<lparr>hasLower := True\<rparr>
      else if isupper c then f\<lparr>hasUpper := True\<rparr>
      else if isdigit c then f\<lparr>hasDigit := True\<rparr>
      else f\<lparr>hasSpecial := True\<rparr>)"

definition scan :: "string \<Rightarrow> flags" where
  "scan pw = foldl scanStep noFlags pw"

text \<open>
  \<^verbatim>\<open>checkStrength\<close> returns its boolean together with the messages it printed.
  The length test comes first and returns at once.
\<close>

definition checkStrength :: "string \<Rightarrow> bool \<times> message list" where
  "checkStrength pw =
     (if length pw < 12 then (False, [Error ''Password length must be at least 12 characters!''])
      else
        let f = scan pw;
            out = (if \<not> hasLower f then [Error ''Missing lowercase character''] else [])
                @ (if \<not> hasUpper f then [Error ''Missing uppercase character''] else [])
                @ (if \<not> hasDigit f then [Error ''Missing digit''] else [])
                @ (if \<not> hasSpecial f then [Error ''Missing special character''] else [])
        in if hasLower f \<and> hasUpper f \<and> hasDigit f \<and> hasSpecial f
           then (True, out @ [Success ''Valid password!''])
           else (False, out))"

text \<open>
  \<^verbatim>\<open>(int)(pw.length() * 3.33)\<close> multiplies in \<^verbatim>\<open>double\<close> and truncates towards
  zero. The exact product is \<open>333 * n / 100\<close>. Wherever the truncation matters it
  is at least \<open>1/100\<close> away from every integer it does not equal, far more than the
  rounding error of the multiplication: for \<open>n \<le> 12\<close>, where the result is below 40,
  and around \<open>2 ^ 31\<close>, where \<open>644889984\<close> characters give 2147483646.72 and one
  more gives 2147483650.05. So the truncated product is \<open>333 * n div 100\<close> whenever
  that decides the result. It fits an \<^verbatim>\<open>int\<close> up to \<open>644889984\<close> characters.
  Beyond, the conversion is not defined by C++; the model takes what the conversion
  instruction of x86 gives then, the smallest \<^verbatim>\<open>int\<close>.
\<close>

definition INT_MAX :: int where
  "INT_MAX = 2147483647"

definition INT_MIN :: int where
  "INT_MIN = - 2147483648"

definition lengthPoints :: "nat \<Rightarrow> int" where
  "lengthPoints n =
     (let t = (333 * int n) div 100
      in if t \<le> INT_MAX then t else INT_MIN)"

definition calculateStrengthPercentage :: "string \<Rightarrow> int" where
  "calculateStrengthPercentage pw =
     (let score = min 40 (lengthPoints (length pw));
          f = scan pw;
          score = (if hasLower f then score + 15 else score);
          score = (if hasUpper f then score + 15 else score);
          score = (if hasDigit f then score + 15 else score);
          score = (if hasSpecial f then score + 15 else score)
      in min 100 score)"

section \<open>Credential hasher (\<^verbatim>\<open>PasswordHasher\<close>)\<close>

text \<open>
  The exceptions the program can raise: \<^verbatim>\<open>std::invalid_argument\<close> and
  \<^verbatim>\<open>std::out_of_range\<close> from \<^verbatim>\<open>stoi\<close> and \<^verbatim>\<open>substr\<close>, and the
  \<^verbatim>\<open>runtime_error("Hashing failed")\<close> of \<^verbatim>\<open>hashPassword\<close>.
\<close>

datatype error = InvalidArgument | OutOfRange | HashingFailed

type_synonym byte = "8 word"

text \<open>
  libsodium is not part of the repository. The model takes from it the constant
  \<^verbatim>\<open>crypto_pwhash_SALTBYTES\<close> and the key derivation \<^verbatim>\<open>crypto_pwhash\<close> at the
  fixed parameters of the call (32 bytes of output, moderate limits, default algorithm):
  a function of the password and the salt bytes that gives the digest written to
  \<^verbatim>\<open>hash\<close>, or \<open>None\<close> when the call returns non-zero.
\<close>

record sodium =
  SALTBYTES :: nat
  pwhash :: "string \<Rightarrow> byte list \<Rightarrow> byte list option"

text \<open>\<^verbatim>\<open>snprintf(&hex[i*2], 3, "%02x", b)\<close>: two lowercase hexadecimal digits per byte.\<close>

definition hexDigit :: "nat \<Rightarrow> char" where
  "hexDigit d = ''0123456789abcdef'' ! d"

definition hexByte :: "byte \<Rightarrow> string" where
  "hexByte b = [hexDigit (unat b div 16), hexDigit (unat b mod 16)]"

definition toHex :: "byte list \<Rightarrow> string" where
  "toHex bs = concat (map hexByte bs)"

text \<open>
  \<^verbatim>\<open>std::string::substr(pos, n)\<close> raises \<^verbatim>\<open>out_of_range\<close> when \<open>pos\<close> is beyond
  the end of the string; at the end it returns the empty string.
\<close>

definition substr :: "string \<Rightarrow> nat \<Rightarrow> nat \<Rightarrow> error + string" where
  "substr s pos n = (if length s < pos then Inl OutOfRange else Inr (take n (drop pos s)))"

text \<open>
  \<^verbatim>\<open>stoi(str, nullptr, 16)\<close>, which is \<^verbatim>\<open>strtol\<close> in base 16: leading white space is
  skipped, then an optional sign, then an optional \<^verbatim>\<open>0x\<close> that a hexadecimal digit
  follows, then the longest run of hexadecimal digits. No digit at all is
  \<^verbatim>\<open>invalid_argument\<close>; a value outside \<^verbatim>\<open>int\<close> is \<^verbatim>\<open>out_of_range\<close>; what
  follows the digits is ignored.
\<close>

definition hexValue :: "char \<Rightarrow> nat option" where
  "hexValue c =
     (let n = (of_char c :: nat) in
      if 48 \<le> n \<and> n \<le> 57 then Some (n - 48)
      else if 97 \<le> n \<and> n \<le> 102 then Some (n - 87)
      else if 65 \<le> n \<and> n \<le> 70 then Some (n - 55)
      else None)"

fun hexDigits :: "nat \<Rightarrow> string \<Rightarrow> nat" where
  "hexDigits acc [] = acc"
| "hexDigits acc (c # cs) =
     (case hexValue c of None \<Rightarrow> acc | Some d \<Rightarrow> hexDigits (16 * acc + d) cs)"

definition skipSign :: "string \<Rightarrow> bool \<times> string" where
  "skipSign s =
     (case s of
        [] \<Rightarrow> (False, s)
      | c # r \<Rightarrow> if c = CHR ''-'' then (True, r) else if c = CHR ''+'' then (False, r) else (False, s))"

definition skipPrefix :: "string \<Rightarrow> string" where
  "skipPrefix s =
     (case s of
        z # x # d # r \<Rightarrow>
          if z = CHR ''0'' \<and> (x = CHR ''x'' \<or> x = CHR ''X'') \<and> hexValue d \<noteq> None then d # r else s
      | _ \<Rightarrow> s)"

definition stoi16 :: "string \<Rightarrow> error + int" where
  "stoi16 str =
     (let (neg, s) = skipSign (dropWhile isspace str);
          s = skipPrefix s
      in case s of
           [] \<Rightarrow> Inl InvalidArgument
         | c # _ \<Rightarrow>
             if hexValue c = None then Inl InvalidArgument
             else
               let v = int (hexDigits 0 s);
                   r = (if neg then - v else v)
               in if r < - (2 ^ 31) \<or> 2 ^ 31 - 1 < r then Inl OutOfRange else Inr r)"

text \<open>
  \<^verbatim>\<open>generateSalt\<close> fills a buffer of \<^verbatim>\<open>crypto_pwhash_SALTBYTES\<close> random bytes and
  returns them in hexadecimal. The argument is the content of the buffer after
  \<^verbatim>\<open>randombytes_buf\<close>.
\<close>

definition generateSalt :: "byte list \<Rightarrow> string" where
  "generateSalt salt = toHex salt"

text \<open>
  The first loop of \<^verbatim>\<open>hashPassword\<close>: \<^verbatim>\<open>salt[i] = stoi(salt_hex.substr(i*2, 2), nullptr, 16)\<close>
  for \<open>i\<close> from the given index, \<open>k\<close> more times. The assignment to an
  \<^verbatim>\<open>unsigned char\<close> keeps the value modulo 256.
\<close>

fun decodeSalt :: "string \<Rightarrow> nat \<Rightarrow> nat \<Rightarrow> error + byte list" where
  "decodeSalt salt_hex i 0 = Inr []"
| "decodeSalt salt_hex i (Suc k) =
     (case substr salt_hex (i * 2) 2 of
        Inl e \<Rightarrow> Inl e
      | Inr t \<Rightarrow>
          (case stoi16 t of
             Inl e \<Rightarrow> Inl e
           | Inr v \<Rightarrow>
               (case decodeSalt salt_hex (Suc i) k of
                  Inl e \<Rightarrow> Inl e
                | Inr bs \<Rightarrow> Inr (word_of_int v # bs))))"

definition hashPassword :: "sodium \<Rightarrow> string \<Rightarrow> string \<Rightarrow> error + string" where
  "hashPassword L password salt_hex =
     (case decodeSalt salt_hex 0 (SALTBYTES L) of
        Inl e \<Rightarrow> Inl e
      | Inr salt \<Rightarrow>
          (case pwhash L password salt of
             None \<Rightarrow> Inl HashingFailed
           | Some hash \<Rightarrow> Inr (toHex hash)))"

text \<open>\<^verbatim>\<open>try { return hash == hashPassword(password, salt); } catch (...) { return false; }\<close>\<close>

definition verifyPassword :: "sodium \<Rightarrow> string \<Rightarrow> string \<Rightarrow> string \<Rightarrow> bool" where
  "verifyPassword L password hash salt =
     (case hashPassword L password salt of
        Inl e \<Rightarrow> False
      | Inr h \<Rightarrow> hash = h)"

section \<open>Credential store (\<^verbatim>\<open>Database\<close>)\<close>

text \<open>
  \<^verbatim>\<open>std::map<string, pair<string, string>>\<close> is a list of entries in increasing key
  order without repeated keys; \<^verbatim>\<open>std::string\<close> compares bytewise and a proper prefix
  is smaller, which is the order of \<open>string\<close> here. The backing file
  \<^verbatim>\<open>users.txt\<close> is the field \<open>backing\<close>, its content as one string,
  \<open>None\<close> when the file does not exist; \<open>writable\<close> says whether the file
  system lets the program open the file for writing (it does not when the file or its
  directory is read-only). Streams are taken to pass every byte unchanged.
\<close>

type_synonym credentials = "string \<times> string"

type_synonym usermap = "(string \<times> credentials) list"

record database =
  users :: usermap
  backing :: "string option"
  writable :: bool

text \<open>The invariant of the container: the keys increase strictly.\<close>

definition ordered :: "usermap \<Rightarrow> bool" where
  "ordered us = sorted_wrt (<) (map fst us)"

text \<open>\<^verbatim>\<open>users[k] = v\<close>: overwrite the entry of \<open>k\<close>, or insert one at its place.\<close>

fun assign :: "string \<Rightarrow> credentials \<Rightarrow> usermap \<Rightarrow> usermap" where
  "assign k v [] = [(k, v)]"
| "assign k v ((k', v') # us) =
     (if k < k' then (k, v) # (k', v') # us
      else if k = k' then (k, v) # us
      else (k', v') # assign k v us)"

definition newline :: char where
  "newline = CHR 0x0A"

definition comma :: char where
  "comma = CHR '',''"

text \<open>
  \<^verbatim>\<open>getline(file, line)\<close> on the unread rest of the file: it fails at the end of the
  file; otherwise the line is what precedes the next newline (or the end of the file) and
  the newline is consumed.
\<close>

definition getline :: "string \<Rightarrow> (string \<times> string) option" where
  "getline inp =
     (if inp = [] then None
      else Some (takeWhile (\<lambda>c. c \<noteq> newline) inp, drop 1 (dropWhile (\<lambda>c. c \<noteq> newline) inp)))"

text \<open>
  \<^verbatim>\<open>line.find(ch, pos)\<close>; \<open>None\<close> is \<^verbatim>\<open>string::npos\<close>. The source computes
  \<^verbatim>\<open>pos1 + 1\<close> before it tests \<^verbatim>\<open>pos1\<close>: for \<^verbatim>\<open>npos\<close>, the largest
  \<^verbatim>\<open>size_t\<close>, the sum wraps to 0.
\<close>

definition find_str :: "string \<Rightarrow> char \<Rightarrow> nat \<Rightarrow> nat option" where
  "find_str s ch pos =
     (let r = drop pos s
      in if ch \<in> set r then Some (pos + length (takeWhile (\<lambda>c. c \<noteq> ch) r)) else None)"

definition plusOne :: "nat option \<Rightarrow> nat" where
  "plusOne p = (case p of None \<Rightarrow> 0 | Some n \<Rightarrow> n + 1)"

text \<open>\<^verbatim>\<open>substr(pos)\<close>, to the end of the string.\<close>

definition substrEnd :: "string \<Rightarrow> nat \<Rightarrow> error + string" where
  "substrEnd s pos = (if length s < pos then Inl OutOfRange else Inr (drop pos s))"

text \<open>
  The body of the loop of \<^verbatim>\<open>loadUsers\<close> on one line: \<open>Inr None\<close> is
  \<^verbatim>\<open>continue\<close>, \<open>Inr (Some (u, h, s))\<close> the entry to assign. The second
  comma is searched behind the first, so \<^verbatim>\<open>pos2 - pos1 - 1\<close> does not wrap
  (\<open>find_str_bounds\<close> below).
\<close>

definition parseLine :: "string \<Rightarrow> error + (string \<times> credentials) option" where
  "parseLine line =
     (let pos1 = find_str line comma 0;
          pos2 = find_str line comma (plusOne pos1)
      in case (pos1, pos2) of
           (Some p1, Some p2) \<Rightarrow>
             (case substr line 0 p1 of
                Inl e \<Rightarrow> Inl e
              | Inr u \<Rightarrow>
                  (case substr line (p1 + 1) (p2 - p1 - 1) of
                     Inl e \<Rightarrow> Inl e
                   | Inr h \<Rightarrow>
                       (case substrEnd line (p2 + 1) of
                          Inl e \<Rightarrow> Inl e
                        | Inr s \<Rightarrow> Inr (Some (u, (h, s))))))
         | _ \<Rightarrow> Inr None)"

lemma getline_shorter: "getline inp = Some (line, rest) \<Longrightarrow> length rest < length inp"
proof -
  assume a: "getline inp = Some (line, rest)"
  then have ne: "inp \<noteq> []" and r: "rest = drop 1 (dropWhile (\<lambda>c. c \<noteq> newline) inp)"
    by (auto simp add: getline_def split: if_splits)
  have le: "length (dropWhile (\<lambda>c. c \<noteq> newline) inp) \<le> length inp"
    by (rule length_dropWhile_le)
  show ?thesis
  proof (cases "dropWhile (\<lambda>c. c \<noteq> newline) inp")
    case Nil
    with ne r show ?thesis by simp
  next
    case (Cons c cs)
    with le r show ?thesis by simp
  qed
qed

function loadLoop :: "usermap \<Rightarrow> string \<Rightarrow> error + usermap" where
  "loadLoop us inp =
     (case getline inp of
        None \<Rightarrow> Inr us
      | Some (line, rest) \<Rightarrow>
          (case parseLine line of
             Inl e \<Rightarrow> Inl e
           | Inr None \<Rightarrow> loadLoop us rest
           | Inr (Some (u, hs)) \<Rightarrow> loadLoop (assign u hs us) rest))"
  by pat_completeness auto
termination
  by (relation "measure (\<lambda>(us, inp). length inp)") (auto simp add: getline_shorter)

text \<open>
  Two views of the same loop, used to state its properties: \<open>fileLines\<close> is the
  sequence of lines that the successive calls of \<^verbatim>\<open>getline\<close> return, and
  \<open>storeLine\<close> what one pass through the body does to the mapping.
\<close>

function fileLines :: "string \<Rightarrow> string list" where
  "fileLines inp =
     (case getline inp of
        None \<Rightarrow> []
      | Some (line, rest) \<Rightarrow> line # fileLines rest)"
  by pat_completeness auto
termination
  by (relation "measure length") (auto simp add: getline_shorter)

definition storeLine :: "usermap \<Rightarrow> string \<Rightarrow> usermap" where
  "storeLine us line =
     (case parseLine line of
        Inr (Some (u, hs)) \<Rightarrow> assign u hs us
      | _ \<Rightarrow> us)"

declare loadLoop.simps [simp del] fileLines.simps [simp del]

text \<open>The user name whose entry a line assigns, if the line assigns one.\<close>

definition lineUser :: "string \<Rightarrow> string option" where
  "lineUser line = (case parseLine line of Inr (Some (u, hs)) \<Rightarrow> Some u | _ \<Rightarrow> None)"

text \<open>
  An entry that a line of the file can carry: the separator occurs neither in the user
  name nor in the hash, and no field contains a newline.
\<close>

definition plainEntry :: "string \<times> credentials \<Rightarrow> bool" where
  "plainEntry e =
     (case e of (u, (h, s)) \<Rightarrow>
        comma \<notin> set u \<and> newline \<notin> set u \<and> comma \<notin> set h \<and> newline \<notin> set h \<and> newline \<notin> set s)"

text \<open>\<^verbatim>\<open>if (!file) return;\<close>: without the file the mapping is left as it is.\<close>

definition loadUsers :: "database \<Rightarrow> error + database" where
  "loadUsers st =
     (case backing st of
        None \<Rightarrow> Inr st
      | Some content \<Rightarrow>
          (case loadLoop (users st) content of
             Inl e \<Rightarrow> Inl e
           | Inr us \<Rightarrow> Inr (st\<lparr>users := us\<rparr>)))"

fun renderLine :: "string \<times> credentials \<Rightarrow> string" where
  "renderLine (user, (h, s)) = user @ [comma] @ h @ [comma] @ s @ [newline]"

text \<open>
  \<^verbatim>\<open>saveUsers\<close> opens an \<^verbatim>\<open>ofstream\<close> and writes one line per entry. It never
  tests the stream: when the file cannot be opened every \<^verbatim>\<open><<\<close> does nothing, the
  file stays as it was, and \<^verbatim>\<open>saveUsers\<close> returns as usual.
\<close>

definition saveUsers :: "database \<Rightarrow> database" where
  "saveUsers st =
     (if writable st then st\<lparr>backing := Some (concat (map renderLine (users st)))\<rparr>
      else st)"

definition userExists :: "database \<Rightarrow> string \<Rightarrow> bool" where
  "userExists st username = (map_of (users st) username \<noteq> None)"

definition addUser :: "database \<Rightarrow> string \<Rightarrow> string \<Rightarrow> string \<Rightarrow> bool \<times> database" where
  "addUser st username h s =
     (if userExists st username then (False, st)
      else (True, saveUsers (st\<lparr>users := assign username (h, s) (users st)\<rparr>)))"

definition getCredentials :: "database \<Rightarrow> string \<Rightarrow> credentials option" where
  "getCredentials st username = map_of (users st) username"

definition userCount :: "database \<Rightarrow> int" where
  "userCount st = int (length (users st))"

text \<open>
  The program starts with an empty mapping; the file is whatever the disk holds. The
  disk of \<open>fresh f\<close> accepts writes; \<open>(fresh f)\<lparr>writable := False\<rparr>\<close> is the
  same start on a disk that refuses them.
\<close>

definition fresh :: "string option \<Rightarrow> database" where
  "fresh f = \<lparr>users = [], backing = f, writable = True\<rparr>"

section \<open>Workflows\<close>

text \<open>
  The screens read scripted input: the user name typed at the prompt and the strings
  that successive calls of \<^verbatim>\<open>getPasswordFromUser\<close> return. A screen whose input
  runs out before it finishes gives \<open>None\<close>. Of the output only the last report of a
  screen is kept. \<open>Inl e\<close> is an exception that leaves the screen.
\<close>

text \<open>
  The loop \<^verbatim>\<open>while (!passwordSet)\<close> of \<^verbatim>\<open>registrationScreen\<close> with
  \<^verbatim>\<open>User::setPassword\<close> unfolded in it: an empty or weak password asks again, a strong
  one reads the confirmation and asks again when it differs.
\<close>

fun passwordLoop :: "string list \<Rightarrow> string option" where
  "passwordLoop [] = None"
| "passwordLoop (pw # rest) =
     (if pw = [] then passwordLoop rest
      else if \<not> fst (checkStrength pw) then passwordLoop rest
      else (case rest of
              [] \<Rightarrow> None
            | confirm # rest' \<Rightarrow> if pw \<noteq> confirm then passwordLoop rest' else Some pw))"

definition registrationScreen ::
  "sodium \<Rightarrow> database \<Rightarrow> string \<Rightarrow> string list \<Rightarrow> byte list \<Rightarrow> (error + database \<times> message) option" where
  "registrationScreen L st username inputs rnd =
     (if username = [] then Some (Inr (st, Error ''Username required''))
      else if list_ex (\<lambda>c. \<not> isalnum c) username
        then Some (Inr (st, Error ''Only alphanumeric characters allowed''))
      else if userExists st username then Some (Inr (st, Error ''Username already taken''))
      else
        (case passwordLoop inputs of
           None \<Rightarrow> None
         | Some password \<Rightarrow>
             let salt = generateSalt rnd
             in (case hashPassword L password salt of
                   Inl e \<Rightarrow> Some (Inl e)
                 | Inr h \<Rightarrow>
                     (case addUser st username h salt of
                        (True, st') \<Rightarrow> Some (Inr (st', Success ''Account created successfully!''))
                      | (False, st') \<Rightarrow> Some (Inr (st', Error ''Account creation failed''))))))"

definition loginScreen :: "sodium \<Rightarrow> database \<Rightarrow> string \<Rightarrow> string \<Rightarrow> message" where
  "loginScreen L st username password =
     (if username = [] then Error ''Username required''
      else
        (case getCredentials st username of
           None \<Rightarrow> Error ''User not found''
         | Some (storedHash, storedSalt) \<Rightarrow>
             if verifyPassword L password storedHash storedSalt then Success ''Login successful!''
             else Error ''Invalid credentials''))"

text \<open>
  One turn of the menu loop of \<^verbatim>\<open>main\<close>. Neither \<^verbatim>\<open>main\<close> nor the screens have a
  handler, so an exception that leaves a screen leaves \<^verbatim>\<open>main\<close> and the C++ runtime
  ends the process (\<^verbatim>\<open>std::terminate\<close>). \<^verbatim>\<open>loginScreen\<close> only prints its report: it
  changes nothing and, as \<open>loginScreen\<close> above has no error result, raises nothing.
\<close>

datatype request =
    Login string string
  | Register string "string list" "byte list"
  | Quit
  | Invalid

datatype process = Menu database | Exited | Terminated error

definition menuTurn :: "sodium \<Rightarrow> database \<Rightarrow> request \<Rightarrow> process option" where
  "menuTurn L st req =
     (case req of
        Login username password \<Rightarrow> Some (Menu st)
      | Register username inputs rnd \<Rightarrow>
          (case registrationScreen L st username inputs rnd of
             None \<Rightarrow> None
           | Some (Inl e) \<Rightarrow> Some (Terminated e)
           | Some (Inr (st', report)) \<Rightarrow> Some (Menu st'))
      | Quit \<Rightarrow> Some Exited
      | Invalid \<Rightarrow> Some (Menu st))"

section \<open>Stand-ins for libsodium\<close>

text \<open>
  Two instances of the library, to run the model on concrete inputs. The first has salts
  of two bytes and a derivation that always succeeds (its digest is the bytes of the
  password followed by the salt); the second has the salt length of libsodium and a
  derivation that always fails, as \<^verbatim>\<open>crypto_pwhash\<close> does when it cannot allocate its
  memory.
\<close>

definition toySodium :: sodium where
  "toySodium = \<lparr>SALTBYTES = 2, pwhash = (\<lambda>password salt. Some (map of_char password @ salt))\<rparr>"

definition exhaustedSodium :: sodium where
  "exhaustedSodium = \<lparr>SALTBYTES = 16, pwhash = (\<lambda>password salt. None)\<rparr>"

section \<open>Properties of the strength evaluator\<close>

lemma islower_not_isupper: "islower c \<Longrightarrow> \<not> isupper c"
  by (simp add: islower_def isupper_def)

lemma isdigit_not_letter: "isdigit c \<Longrightarrow> \<not> isupper c \<and> \<not> islower c"
  by (simp add: islower_def isupper_def isdigit_def)

lemma scanStep_fields:
  "hasLower (scanStep f c) = (hasLower f \<or> islower c)"
  "hasUpper (scanStep f c) = (hasUpper f \<or> isupper c)"
  "hasDigit (scanStep f c) = (hasDigit f \<or> isdigit c)"
  "hasSpecial (scanStep f c) = (hasSpecial f \<or> isspecial c)"
  using islower_not_isupper [of c] isdigit_not_letter [of c]
  by (auto simp add: scanStep_def isalpha_def isspecial_def)

lemma foldl_scanStep:
  "hasLower (foldl scanStep f pw) = (hasLower f \<or> list_ex islower pw)"
  "hasUpper (foldl scanStep f pw) = (hasUpper f \<or> list_ex isupper pw)"
  "hasDigit (foldl scanStep f pw) = (hasDigit f \<or> list_ex isdigit pw)"
  "hasSpecial (foldl scanStep f pw) = (hasSpecial f \<or> list_ex isspecial pw)"
  by (induction pw arbitrary: f; simp add: scanStep_fields; blast)+

lemma scan_flags:
  "hasLower (scan pw) = list_ex islower pw"
  "hasUpper (scan pw) = list_ex isupper pw"
  "hasDigit (scan pw) = list_ex isdigit pw"
  "hasSpecial (scan pw) = list_ex isspecial pw"
  by (simp_all add: scan_def foldl_scanStep noFlags_def)

lemma lengthPoints_floor:
  assumes "n \<le> 644889984"
  shows "lengthPoints n = \<lfloor>real n * 3.33\<rfloor>"
proof -
  have "real n * 3.33 = real_of_int (333 * int n) / real_of_int 100"
    by simp
  then have fl: "\<lfloor>real n * 3.33\<rfloor> = (333 * int n) div 100"
    by (simp only: floor_divide_of_int_eq)
  have "333 * int n \<le> 214748364672"
    using assms by simp
  then have "(333 * int n) div 100 \<le> INT_MAX"
    unfolding INT_MAX_def by linarith
  then have "lengthPoints n = (333 * int n) div 100"
    by (simp add: lengthPoints_def Let_def)
  with fl show ?thesis
    by (simp only:)
qed

text \<open>From one character more the conversion is out of range.\<close>

lemma lengthPoints_overflow:
  assumes "644889984 < n"
  shows "lengthPoints n = INT_MIN"
proof -
  have "214748364800 \<le> 333 * int n"
    using assms by simp
  then have "INT_MAX < (333 * int n) div 100"
    unfolding INT_MAX_def by linarith
  then show ?thesis
    by (simp add: lengthPoints_def Let_def)
qed

lemmas char_classes = islower_def isupper_def isdigit_def isalpha_def isspecial_def

text \<open>
  Claim C3. \<^verbatim>\<open>checkStrength\<close> returns true exactly when the password has at least
  12 characters and contains a lowercase letter, an uppercase letter, a digit and a
  special character, where special means neither a letter nor a digit
  (\<open>isspecial\<close>).
\<close>

theorem checkStrength_iff:
  "fst (checkStrength pw) \<longleftrightarrow>
     12 \<le> length pw \<and> list_ex islower pw \<and> list_ex isupper pw \<and> list_ex isdigit pw
       \<and> list_ex isspecial pw"
  by (simp add: checkStrength_def Let_def scan_flags)

theorem checkStrength_iff_witness:
  "fst (checkStrength ''Str0ng!Passw0rd'') \<and> \<not> fst (checkStrength ''Str0ngPassw0rd'')"
  using checkStrength_iff [of "''Str0ng!Passw0rd''"] checkStrength_iff [of "''Str0ngPassw0rd''"]
  by (simp add: char_classes)

text \<open>
  Claim C4, as the spec states it, has the length contribution rounded:
  \<open>min 40 (round (length * 3.33))\<close>. The code truncates. For the two-character
  password \<open>ab\<close> the code returns 21 where the stated formula gives 22.
\<close>

theorem score_rounding_counterexample:
  "calculateStrengthPercentage ''ab'' = 21 \<and>
   min 100 (min 40 (round (real (length ''ab'') * 3.33))
            + 15 * (of_bool (list_ex islower ''ab'') + of_bool (list_ex isupper ''ab'')
                    + of_bool (list_ex isdigit ''ab'') + of_bool (list_ex isspecial ''ab''))) = (22::int)"
  by (simp add: calculateStrengthPercentage_def Let_def scan_flags lengthPoints_def
      INT_MAX_def char_classes round_def)

text \<open>
  Claim C4, amended. For every password of at most \<open>644889984\<close> characters, so
  that its length times 3.33 fits an \<^verbatim>\<open>int\<close>, the score is
  \<open>min 100 (min 40 \<lfloor>length * 3.33\<rfloor> + 15 * k)\<close>, where \<open>k\<close> counts the
  categories among lowercase, uppercase, digit and special that occur in the password:
  the length contribution is the product truncated, not rounded.
\<close>

theorem score_formula:
  assumes "length pw \<le> 644889984"
  shows "calculateStrengthPercentage pw =
     min 100 (min 40 \<lfloor>real (length pw) * 3.33\<rfloor>
              + 15 * (of_bool (list_ex islower pw) + of_bool (list_ex isupper pw)
                      + of_bool (list_ex isdigit pw) + of_bool (list_ex isspecial pw)))"
proof -
  have "\<lfloor>real (length pw) * 3.33\<rfloor> = lengthPoints (length pw)"
    by (rule lengthPoints_floor [OF assms, symmetric])
  then show ?thesis
    by (simp only:) (simp add: calculateStrengthPercentage_def Let_def scan_flags)
qed

theorem score_formula_witness:
  "calculateStrengthPercentage ''Str0ng!Passw0rd'' = 100 \<and> calculateStrengthPercentage ''abc'' = 24"
proof -
  have a: "length ''Str0ng!Passw0rd'' \<le> 644889984" by simp
  have b: "length ''abc'' \<le> 644889984" by simp
  show ?thesis
    using score_formula [OF a] score_formula [OF b]
    by (simp add: char_classes)
qed

text \<open>
  Beyond that length the score is the smallest \<^verbatim>\<open>int\<close> plus the category points,
  a negative number.
\<close>

lemma score_overflow:
  assumes "644889984 < length pw"
  shows "calculateStrengthPercentage pw =
     INT_MIN + 15 * (of_bool (list_ex islower pw) + of_bool (list_ex isupper pw)
                      + of_bool (list_ex isdigit pw) + of_bool (list_ex isspecial pw))"
  by (simp add: calculateStrengthPercentage_def Let_def scan_flags
      lengthPoints_overflow [OF assms] INT_MIN_def)

text \<open>
  Claim C5, as stated, has every missing category reported whatever the length of the
  password. The length test of \<^verbatim>\<open>checkStrength\<close> returns before the categories are
  looked at: \<open>abc\<close> has no uppercase letter and the report of it is not printed.
\<close>

theorem missing_category_counterexample:
  "\<not> list_ex isupper ''abc''
   \<and> Error ''Missing uppercase character'' \<notin> set (snd (checkStrength ''abc''))"
  by (simp add: checkStrength_def char_classes)

text \<open>
  Claim C5, amended. A password that lacks one of the four categories is rejected,
  whatever its length. When it has at least 12 characters, the report of a category is
  printed exactly when that category is missing, each category with a message of its
  own. When it is shorter, the only message is the one about the length.
\<close>

theorem missing_category_reported:
  "(\<not> list_ex islower pw \<or> \<not> list_ex isupper pw \<or> \<not> list_ex isdigit pw \<or> \<not> list_ex isspecial pw
      \<longrightarrow> \<not> fst (checkStrength pw))
   \<and> (12 \<le> length pw \<longrightarrow>
        (Error ''Missing lowercase character'' \<in> set (snd (checkStrength pw)) \<longleftrightarrow> \<not> list_ex islower pw)
      \<and> (Error ''Missing uppercase character'' \<in> set (snd (checkStrength pw)) \<longleftrightarrow> \<not> list_ex isupper pw)
      \<and> (Error ''Missing digit'' \<in> set (snd (checkStrength pw)) \<longleftrightarrow> \<not> list_ex isdigit pw)
      \<and> (Error ''Missing special character'' \<in> set (snd (checkStrength pw)) \<longleftrightarrow> \<not> list_ex isspecial pw))
   \<and> (length pw < 12 \<longrightarrow>
        snd (checkStrength pw) = [Error ''Password length must be at least 12 characters!''])"
  by (simp add: checkStrength_def Let_def scan_flags)

theorem missing_category_reported_witness:
  "\<not> fst (checkStrength ''strongpassword'')
   \<and> Error ''Missing lowercase character'' \<notin> set (snd (checkStrength ''strongpassword''))
   \<and> Error ''Missing uppercase character'' \<in> set (snd (checkStrength ''strongpassword''))
   \<and> Error ''Missing digit'' \<in> set (snd (checkStrength ''strongpassword''))
   \<and> Error ''Missing special character'' \<in> set (snd (checkStrength ''strongpassword''))
   \<and> snd (checkStrength ''short'') = [Error ''Password length must be at least 12 characters!'']"
  using missing_category_reported [of "''strongpassword''"] missing_category_reported [of "''short''"]
  by (simp add: char_classes)

section \<open>Properties of the credential hasher\<close>

lemma nat_below_16:
  "d < 16 \<Longrightarrow> d \<in> {0, 1, 2, 3, 4, 5, 6, 7, 8, 9, 10, 11, 12, 13, 14, 15::nat}"
  by simp arith

lemma hexDigit_facts:
  assumes "d < 16"
  shows "hexValue (hexDigit d) = Some d" and "\<not> isspace (hexDigit d)"
    and "hexDigit d \<noteq> CHR ''-''" and "hexDigit d \<noteq> CHR ''+''"
  using nat_below_16 [OF assms]
  by (auto simp add: hexDigit_def hexValue_def isspace_def)

text \<open>\<^verbatim>\<open>stoi\<close> reads back what \<^verbatim>\<open>%02x\<close> printed.\<close>

lemma stoi16_hexByte: "stoi16 (hexByte b) = Inr (int (unat b))"
proof -
  have hi: "unat b div 16 < 16"
    using unsigned_less [of b, where ?'a = nat] by simp
  have lo: "unat b mod 16 < 16" by simp
  have nonneg: "0 \<le> uint b" by simp
  have below: "uint b < 256" using uint_lt2p [of b] by simp
  have range: "\<not> uint b < - 2147483648" "\<not> 2147483647 < uint b"
    using nonneg below by linarith+
  show ?thesis
    using hexDigit_facts [OF hi] hexDigit_facts [OF lo] range
    by (simp add: stoi16_def hexByte_def skipSign_def skipPrefix_def Let_def)
qed

lemma stoi16_Nil: "stoi16 [] = Inl InvalidArgument"
  by (simp add: stoi16_def skipSign_def skipPrefix_def)

lemma length_toHex: "length (toHex bs) = length bs * 2"
  by (induction bs) (simp_all add: toHex_def hexByte_def)

lemma toHex_append: "toHex (xs @ ys) = toHex xs @ toHex ys"
  by (simp add: toHex_def)

lemma toHex_Cons: "toHex (b # bs) = hexByte b @ toHex bs"
  by (simp add: toHex_def)

lemma substr_toHex:
  "substr (toHex (pre @ b # bs)) (length pre * 2) 2 = Inr (hexByte b)"
  by (simp add: substr_def toHex_append toHex_Cons length_toHex) (simp add: hexByte_def)

text \<open>The decoding loop, started behind the bytes already decoded, returns the rest.\<close>

lemma decodeSalt_toHex:
  "decodeSalt (toHex (pre @ bs)) (length pre) (length bs) = Inr bs"
proof (induction bs arbitrary: pre)
  case Nil
  show ?case by simp
next
  case (Cons b bs)
  have "decodeSalt (toHex ((pre @ [b]) @ bs)) (length (pre @ [b])) (length bs) = Inr bs"
    by (rule Cons.IH)
  then have rest: "decodeSalt (toHex (pre @ b # bs)) (Suc (length pre)) (length bs) = Inr bs"
    by simp
  show ?case
    by (simp add: substr_toHex stoi16_hexByte rest)
qed

lemma hashPassword_generated:
  assumes "length rnd = SALTBYTES L"
  shows "hashPassword L p (generateSalt rnd) =
           (case pwhash L p rnd of None \<Rightarrow> Inl HashingFailed | Some d \<Rightarrow> Inr (toHex d))"
  using decodeSalt_toHex [of "[]" rnd] assms
  by (simp add: hashPassword_def generateSalt_def)

text \<open>A loop that decodes \<open>k\<close> bytes from index \<open>i\<close> needs \<open>2 * (i + k) - 1\<close> characters.\<close>

lemma decodeSalt_needs:
  "decodeSalt s i k = Inr bs \<Longrightarrow> 0 < k \<Longrightarrow> (i + k) * 2 \<le> Suc (length s)"
proof (induction k arbitrary: i bs)
  case 0
  then show ?case by simp
next
  case (Suc k)
  from Suc.prems(1) obtain t v bs' where
    t: "substr s (i * 2) 2 = Inr t" and v: "stoi16 t = Inr v"
    and r: "decodeSalt s (Suc i) k = Inr bs'"
    by (auto split: sum.splits)
  show ?case
  proof (cases k)
    case 0
    from t v have "take 2 (drop (i * 2) s) \<noteq> []"
      by (auto simp add: substr_def stoi16_Nil split: if_splits)
    then show ?thesis using 0 by simp
  next
    case (Suc k')
    then have "(Suc i + k) * 2 \<le> Suc (length s)"
      using Suc.IH [OF r] by simp
    then show ?thesis by simp
  qed
qed

lemma short_salt_raises:
  assumes "length s + 2 \<le> SALTBYTES L * 2"
  shows "\<exists>e. hashPassword L p s = Inl e"
proof (cases "decodeSalt s 0 (SALTBYTES L)")
  case (Inl e)
  then show ?thesis by (simp add: hashPassword_def)
next
  case (Inr bs)
  from assms have "0 < SALTBYTES L" by auto
  from decodeSalt_needs [OF Inr this] assms show ?thesis by simp
qed

lemmas hex_eval = toHex_def hexByte_def hexDigit_def generateSalt_def

text \<open>
  Claim C1. Let the salt be the one \<^verbatim>\<open>generateSalt\<close> makes from a buffer of
  \<^verbatim>\<open>crypto_pwhash_SALTBYTES\<close> random bytes, and let the key derivation return a
  digest for the password and these bytes. Then \<^verbatim>\<open>hashPassword\<close> decodes the salt
  back to the same bytes without raising and returns the digest in hexadecimal, and
  \<^verbatim>\<open>verifyPassword\<close> of the password, that hash and that salt returns true.
\<close>

theorem verify_roundtrip:
  assumes "length rnd = SALTBYTES L" and "pwhash L p rnd = Some digest"
  shows "hashPassword L p (generateSalt rnd) = Inr (toHex digest)
         \<and> verifyPassword L p (toHex digest) (generateSalt rnd)"
  using assms by (simp add: verifyPassword_def hashPassword_generated)

theorem verify_roundtrip_witness:
  "hashPassword toySodium ''pw'' (generateSalt [0x01, 0xff]) = Inr ''707701ff''
   \<and> verifyPassword toySodium ''pw'' ''707701ff'' ''01ff''"
  using verify_roundtrip [of "[0x01, 0xff]" toySodium "''pw''" "[0x70, 0x77, 0x01, 0xff]"]
  by (simp add: toySodium_def hex_eval)

text \<open>
  Claim C6. \<^verbatim>\<open>verifyPassword\<close> returns a boolean on every input. Whenever the hash
  computation inside it raises, whichever exception it is, the result is false; a salt
  string at least two characters shorter than twice \<^verbatim>\<open>crypto_pwhash_SALTBYTES\<close>
  always makes it raise, so verification with such a salt is false.
\<close>

theorem verify_fails_closed:
  "(hashPassword L p s = Inl e \<longrightarrow> \<not> verifyPassword L p h s)
   \<and> (length s + 2 \<le> SALTBYTES L * 2 \<longrightarrow> \<not> verifyPassword L p h s)"
  using short_salt_raises [of s L p]
  by (auto simp add: verifyPassword_def)

theorem verify_fails_closed_witness:
  "hashPassword toySodium ''pw'' ''zz01'' = Inl InvalidArgument
   \<and> \<not> verifyPassword toySodium ''pw'' ''707701ff'' ''zz01''
   \<and> \<not> verifyPassword toySodium ''pw'' ''707701ff'' ''01''"
proof -
  have raised: "hashPassword toySodium ''pw'' ''zz01'' = Inl InvalidArgument"
    by code_simp
  have short: "length ''01'' + 2 \<le> SALTBYTES toySodium * 2"
    by (simp add: toySodium_def)
  show ?thesis
    using raised short
      verify_fails_closed [of toySodium "''pw''" "''zz01''" InvalidArgument "''707701ff''"]
      verify_fails_closed [of toySodium "''pw''" "''01''" InvalidArgument "''707701ff''"]
    by simp
qed

section \<open>Properties of the credential store\<close>

subsection \<open>The container\<close>

lemma map_of_assign: "map_of (assign k v us) = (map_of us)(k \<mapsto> v)"
  by (induction us) (auto simp add: fun_eq_iff)

lemma assign_mem: "x \<in> set (assign k v us) \<Longrightarrow> x = (k, v) \<or> x \<in> set us"
  by (induction us) (auto split: if_splits)

lemma ordered_assign: "ordered us \<Longrightarrow> ordered (assign k v us)"
proof (induction us)
  case Nil
  show ?case by (simp add: ordered_def)
next
  case (Cons e us)
  obtain k' v' where e: "e = (k', v')" by (cases e)
  from Cons.prems have tl: "ordered us" and hd: "\<forall>x\<in>set us. k' < fst x"
    by (auto simp add: ordered_def e)
  have IH: "ordered (assign k v us)" by (rule Cons.IH [OF tl])
  show ?case
  proof (cases "k < k'")
    case True
    with Cons.prems show ?thesis by (auto simp add: ordered_def e)
  next
    case False
    show ?thesis
    proof (cases "k = k'")
      case True
      with Cons.prems show ?thesis by (auto simp add: ordered_def e)
    next
      case neq: False
      with False have "k' < k" by simp
      then have "\<forall>x\<in>set (assign k v us). k' < fst x"
        using hd assign_mem [of _ k v us] by fastforce
      with IH False neq show ?thesis by (simp add: ordered_def e)
    qed
  qed
qed

lemma assign_last: "\<forall>x\<in>set us. fst x < k \<Longrightarrow> assign k v us = us @ [(k, v)]"
  by (induction us) auto

lemma foldl_assign_ordered:
  "ordered (acc @ us) \<Longrightarrow> foldl (\<lambda>m e. assign (fst e) (snd e) m) acc us = acc @ us"
proof (induction us arbitrary: acc)
  case Nil
  show ?case by simp
next
  case (Cons e us)
  from Cons.prems have "\<forall>x\<in>set acc. fst x < fst e"
    by (auto simp add: ordered_def sorted_wrt_append)
  then have "assign (fst e) (snd e) acc = acc @ [e]"
    using assign_last [of acc "fst e" "snd e"] by simp
  moreover from Cons.prems have "ordered ((acc @ [e]) @ us)" by simp
  ultimately show ?case using Cons.IH [of "acc @ [e]"] by simp
qed

lemma ordered_fresh: "ordered (users (fresh f))"
  by (simp add: fresh_def ordered_def)

lemma ordered_addUser: "ordered (users st) \<Longrightarrow> ordered (users (snd (addUser st u h s)))"
  by (simp add: addUser_def saveUsers_def ordered_assign)

text \<open>
  What \<^verbatim>\<open>addUser\<close> does on every state. An existing user name: false, and the state,
  mapping and backing file, is the one it was given. A new one: true, and the mapping
  is the old one with the user name mapped to the given hash and salt; the backing file
  holds the lines of the whole new mapping if the file can be written, and is what it
  was if not. Either way the user name exists afterwards, and a second \<^verbatim>\<open>addUser\<close>
  for it returns false and changes nothing.
\<close>

lemma addUser_cases:
  "(userExists st u \<longrightarrow> addUser st u h s = (False, st))
   \<and> (\<not> userExists st u \<longrightarrow>
        fst (addUser st u h s)
      \<and> map_of (users (snd (addUser st u h s))) = (map_of (users st))(u \<mapsto> (h, s))
      \<and> (writable st \<longrightarrow>
            backing (snd (addUser st u h s))
              = Some (concat (map renderLine (users (snd (addUser st u h s))))))
      \<and> (\<not> writable st \<longrightarrow> backing (snd (addUser st u h s)) = backing st))
   \<and> userExists (snd (addUser st u h s)) u
   \<and> addUser (snd (addUser st u h s)) u h' s' = (False, snd (addUser st u h s))"
  by (simp add: addUser_def userExists_def saveUsers_def map_of_assign)

text \<open>
  Claim C2 says that \<^verbatim>\<open>addUser\<close> of a new user name inserts the entry, persists the
  full mapping to the backing file and returns true. The program on a disk that refuses
  the write, started without a backing file: \<open>alice\<close> is new, \<^verbatim>\<open>addUser\<close> returns
  true and the mapping holds her entry, but there is still no backing file, and the
  next start of the program loads an empty mapping.
\<close>

theorem addUser_unwritable:
  "\<not> userExists ((fresh None)\<lparr>writable := False\<rparr>) ''alice''
   \<and> addUser ((fresh None)\<lparr>writable := False\<rparr>) ''alice'' ''ab'' ''cd''
       = (True, \<lparr>users = [(''alice'', (''ab'', ''cd''))], backing = None, writable = False\<rparr>)
   \<and> loadUsers ((fresh (backing (snd (addUser ((fresh None)\<lparr>writable := False\<rparr>) ''alice'' ''ab'' ''cd''))))
                   \<lparr>writable := False\<rparr>)
       = Inr ((fresh None)\<lparr>writable := False\<rparr>)"
  by (simp add: addUser_def userExists_def saveUsers_def loadUsers_def fresh_def)

subsection \<open>Reading lines\<close>

lemma takeWhile_upto: "ch \<notin> set u \<Longrightarrow> takeWhile (\<lambda>c. c \<noteq> ch) (u @ ch # r) = u"
  by (induction u) auto

lemma dropWhile_upto: "ch \<notin> set u \<Longrightarrow> dropWhile (\<lambda>c. c \<noteq> ch) (u @ ch # r) = ch # r"
  by (induction u) auto

lemma find_str_none: "ch \<notin> set s \<Longrightarrow> find_str s ch pos = None"
  by (auto simp add: find_str_def Let_def dest: in_set_dropD)

lemma find_str_first: "ch \<notin> set u \<Longrightarrow> find_str (u @ ch # r) ch 0 = Some (length u)"
  by (simp add: find_str_def takeWhile_upto)

lemma find_str_second_none:
  "ch \<notin> set r \<Longrightarrow> find_str (u @ ch # r) ch (Suc (length u)) = None"
  by (simp add: find_str_def)

lemma find_str_second:
  "ch \<notin> set h \<Longrightarrow>
     find_str (u @ ch # h @ ch # s) ch (Suc (length u)) = Some (Suc (length u) + length h)"
  by (simp add: find_str_def takeWhile_upto)

lemma find_str_bounds: "find_str s ch pos = Some p \<Longrightarrow> pos \<le> p \<and> p < length s"
proof -
  assume a: "find_str s ch pos = Some p"
  let ?r = "drop pos s"
  from a have mem: "ch \<in> set ?r" and p: "p = pos + length (takeWhile (\<lambda>c. c \<noteq> ch) ?r)"
    by (auto simp add: find_str_def Let_def split: if_splits)
  have "ch \<in> set xs \<Longrightarrow> length (takeWhile (\<lambda>c. c \<noteq> ch) xs) < length xs" for xs
    by (induction xs) auto
  from this [OF mem] have "length (takeWhile (\<lambda>c. c \<noteq> ch) ?r) < length ?r" .
  with p show ?thesis by auto
qed

lemma parseLine_no_comma: "comma \<notin> set line \<Longrightarrow> parseLine line = Inr None"
  by (simp add: parseLine_def find_str_none)

lemma parseLine_one_comma:
  "comma \<notin> set u \<Longrightarrow> comma \<notin> set r \<Longrightarrow> parseLine (u @ comma # r) = Inr None"
  by (simp add: parseLine_def find_str_first find_str_second_none plusOne_def)

lemma parseLine_fields:
  "comma \<notin> set u \<Longrightarrow> comma \<notin> set h \<Longrightarrow>
     parseLine (u @ comma # h @ comma # s) = Inr (Some (u, (h, s)))"
  by (simp add: parseLine_def find_str_first find_str_second plusOne_def substr_def substrEnd_def)

lemma count_list_zero: "count_list xs c = 0 \<longleftrightarrow> c \<notin> set xs"
  by (induction xs) auto

lemma parseLine_few:
  assumes "count_list line comma < 2"
  shows "parseLine line = Inr None"
proof (cases "comma \<in> set line")
  case False
  then show ?thesis by (rule parseLine_no_comma)
next
  case True
  then obtain u r where line: "line = u @ comma # r" and u: "comma \<notin> set u"
    using split_list_first [of comma line] by blast
  from assms have "count_list r comma = 0"
    by (simp add: line)
  then have "comma \<notin> set r" by (simp add: count_list_zero)
  with u show ?thesis unfolding line by (rule parseLine_one_comma)
qed

lemma parseLine_many:
  assumes "2 \<le> count_list line comma"
  shows "\<exists>u h s. line = u @ [comma] @ h @ [comma] @ s \<and> comma \<notin> set u \<and> comma \<notin> set h
           \<and> parseLine line = Inr (Some (u, (h, s)))"
proof -
  have "comma \<in> set line"
    using assms count_list_zero [of line comma] by auto
  then obtain u r where line: "line = u @ comma # r" and u: "comma \<notin> set u"
    using split_list_first [of comma line] by blast
  from u have "count_list u comma = 0" by (simp add: count_list_zero)
  with assms have "count_list r comma \<noteq> 0" by (simp add: line)
  then have "comma \<in> set r" by (simp add: count_list_zero)
  then obtain h s where r: "r = h @ comma # s" and h: "comma \<notin> set h"
    using split_list_first [of comma r] by blast
  have "parseLine (u @ comma # h @ comma # s) = Inr (Some (u, (h, s)))"
    using u h by (rule parseLine_fields)
  with u h show ?thesis by (auto simp add: line r)
qed

lemma parseLine_total: "\<exists>r. parseLine line = Inr r"
proof (cases "count_list line comma < 2")
  case True
  then show ?thesis by (simp add: parseLine_few)
next
  case False
  then have "2 \<le> count_list line comma" by simp
  from parseLine_many [OF this] show ?thesis by auto
qed

lemma loadLoop_fold: "loadLoop us inp = Inr (foldl storeLine us (fileLines inp))"
proof (induction us inp rule: loadLoop.induct)
  case (1 us inp)
  show ?case
  proof (cases "getline inp")
    case None
    then show ?thesis
      by (subst loadLoop.simps, subst fileLines.simps) simp
  next
    case (Some lr)
    obtain line rest where lr: "(line, rest) = lr" by (cases lr) auto
    obtain r where r: "parseLine line = Inr r" using parseLine_total by blast
    have got: "getline inp = Some (line, rest)" using Some lr by simp
    show ?thesis
    proof (cases r)
      case skip: None
      have "loadLoop us rest = Inr (foldl storeLine us (fileLines rest))"
        by (rule "1.IH"(1) [OF Some lr r skip])
      then show ?thesis
        using got r skip
        by (subst loadLoop.simps, subst fileLines.simps) (simp add: storeLine_def)
    next
      case entry: (Some e)
      obtain u hs where e: "(u, hs) = e" by (cases e) auto
      have "loadLoop (assign u hs us) rest = Inr (foldl storeLine (assign u hs us) (fileLines rest))"
        by (rule "1.IH"(2) [OF Some lr r entry e])
      then show ?thesis
        using got r entry e [symmetric]
        by (subst loadLoop.simps, subst fileLines.simps) (simp add: storeLine_def)
    qed
  qed
qed


lemma getline_line: "newline \<notin> set l \<Longrightarrow> getline (l @ newline # rest) = Some (l, rest)"
  by (simp add: getline_def takeWhile_upto dropWhile_upto)

lemma fileLines_Nil: "fileLines [] = []"
  by (subst fileLines.simps) (simp add: getline_def)

lemma fileLines_line: "newline \<notin> set l \<Longrightarrow> fileLines (l @ newline # rest) = l # fileLines rest"
  by (subst fileLines.simps) (simp add: getline_line)

lemma comma_neq_newline: "comma \<noteq> newline"
  by (simp add: comma_def newline_def)

lemma fileLines_render:
  "list_all plainEntry us \<Longrightarrow>
     fileLines (concat (map renderLine us)) = map (\<lambda>e. butlast (renderLine e)) us"
proof (induction us)
  case Nil
  show ?case by (simp add: fileLines_Nil)
next
  case (Cons e us)
  obtain u h s where e: "e = (u, (h, s))" by (cases e) auto
  from Cons.prems have nl: "newline \<notin> set (u @ comma # h @ comma # s)"
    using comma_neq_newline by (auto simp add: plainEntry_def e)
  have "fileLines ((u @ comma # h @ comma # s) @ newline # concat (map renderLine us))
          = (u @ comma # h @ comma # s) # fileLines (concat (map renderLine us))"
    using nl by (rule fileLines_line)
  moreover have "butlast (renderLine e) = u @ comma # h @ comma # s"
    by (simp add: e butlast_append)
  ultimately show ?case
    using Cons by (simp add: e)
qed

lemma storeLine_render:
  "plainEntry e \<Longrightarrow> storeLine acc (butlast (renderLine e)) = assign (fst e) (snd e) acc"
proof -
  assume p: "plainEntry e"
  obtain u h s where e: "e = (u, (h, s))" by (cases e) auto
  have line: "butlast (renderLine e) = u @ comma # h @ comma # s"
    by (simp add: e butlast_append)
  have "parseLine (u @ comma # h @ comma # s) = Inr (Some (u, (h, s)))"
    using p by (intro parseLine_fields) (simp_all add: plainEntry_def e)
  then show ?thesis unfolding line by (simp add: storeLine_def e)
qed

lemma foldl_storeLine_render:
  "list_all plainEntry us \<Longrightarrow>
     foldl storeLine acc (map (\<lambda>e. butlast (renderLine e)) us)
       = foldl (\<lambda>m e. assign (fst e) (snd e) m) acc us"
  by (induction us arbitrary: acc) (simp_all add: storeLine_render)

lemma storeLine_other: "lineUser l \<noteq> Some u \<Longrightarrow> map_of (storeLine us l) u = map_of us u"
  by (auto simp add: storeLine_def lineUser_def map_of_assign split: sum.splits option.splits)

lemma foldl_storeLine_other:
  "list_all (\<lambda>l. lineUser l \<noteq> Some u) ls \<Longrightarrow> map_of (foldl storeLine us ls) u = map_of us u"
  by (induction ls arbitrary: us) (simp_all add: storeLine_other)

lemma storeLine_this: "parseLine line = Inr (Some (u, hs)) \<Longrightarrow> map_of (storeLine us line) u = Some hs"
  by (simp add: storeLine_def map_of_assign)

lemma ordered_storeLine: "ordered us \<Longrightarrow> ordered (storeLine us l)"
  by (auto simp add: storeLine_def ordered_assign split: sum.splits option.splits)

lemma ordered_foldl_storeLine: "ordered us \<Longrightarrow> ordered (foldl storeLine us ls)"
  by (induction ls arbitrary: us) (simp_all add: ordered_storeLine)

lemma ordered_single:
  "ordered us \<Longrightarrow> map_of us k = Some v \<Longrightarrow> filter (\<lambda>e. fst e = k) us = [(k, v)]"
proof (induction us)
  case Nil
  then show ?case by simp
next
  case (Cons e us)
  obtain k' v' where e: "e = (k', v')" by (cases e)
  from Cons.prems(1) have tl: "ordered us" and hd: "\<forall>x\<in>set us. k' < fst x"
    by (auto simp add: ordered_def e)
  show ?case
  proof (cases "k' = k")
    case True
    with hd have "filter (\<lambda>e. fst e = k) us = []"
      by (auto simp add: filter_empty_conv)
    with True Cons.prems(2) show ?thesis by (simp add: e)
  next
    case False
    with Cons.prems(2) have "map_of us k = Some v" by (simp add: e)
    from Cons.IH [OF tl this] False show ?thesis by (simp add: e)
  qed
qed

lemma ordered_loadUsers: "ordered (users st) \<Longrightarrow> loadUsers st = Inr st' \<Longrightarrow> ordered (users st')"
  by (auto simp add: loadUsers_def loadLoop_fold ordered_foldl_storeLine split: option.splits)

subsection \<open>Saving and loading\<close>

text \<open>
  Claim C7, as stated, covers every mapping that \<^verbatim>\<open>addUser\<close> accepts, and
  \<^verbatim>\<open>addUser\<close> accepts any strings. A user name with a comma is saved as it is and
  read back split at that comma: the store that holds \<open>a,b\<close> with hash \<open>h\<close> and
  salt \<open>s\<close> is loaded as user \<open>a\<close> with hash \<open>b\<close> and salt \<open>h,s\<close>.
\<close>

theorem save_load_counterexample:
  "addUser (fresh None) ''a,b'' ''h'' ''s''
     = (True, \<lparr>users = [(''a,b'', (''h'', ''s''))], backing = Some (''a,b,h,s'' @ [newline]),
              writable = True\<rparr>)
   \<and> loadUsers (fresh (backing (saveUsers
        \<lparr>users = [(''a,b'', (''h'', ''s''))], backing = None, writable = True\<rparr>)))
     = Inr \<lparr>users = [(''a'', (''b'', ''h,s''))], backing = Some (''a,b,h,s'' @ [newline]),
            writable = True\<rparr>"
  by code_simp

text \<open>
  Claim C7, amended. For every mapping in which no user name and no hash contains a
  comma or a newline and no salt contains a newline, saving it to the backing file (the
  file being one the program can write) and loading the file into a fresh empty store
  gives the same mapping: the same user names with the same hash and salt.
\<close>

theorem save_load_roundtrip:
  assumes "ordered (users st)" and "list_all plainEntry (users st)" and "writable st"
  shows "loadUsers (fresh (backing (saveUsers st)))
           = Inr \<lparr>users = users st, backing = backing (saveUsers st), writable = True\<rparr>"
proof -
  have "loadLoop [] (concat (map renderLine (users st))) = Inr (users st)"
    using assms(1,2) foldl_assign_ordered [of "[]" "users st"]
    by (simp add: loadLoop_fold fileLines_render foldl_storeLine_render)
  then show ?thesis
    using assms(3) by (simp add: loadUsers_def fresh_def saveUsers_def)
qed

theorem save_load_roundtrip_witness:
  "loadUsers (fresh (backing (saveUsers
       \<lparr>users = [(''alice'', (''ab'', ''cd'')), (''bob'', (''ef'', ''01''))], backing = None,
        writable = True\<rparr>)))
     = Inr \<lparr>users = [(''alice'', (''ab'', ''cd'')), (''bob'', (''ef'', ''01''))],
            backing = Some (''alice,ab,cd'' @ [newline] @ ''bob,ef,01'' @ [newline]),
            writable = True\<rparr>"
proof -
  let ?st = "\<lparr>users = [(''alice'', (''ab'', ''cd'')), (''bob'', (''ef'', ''01''))], backing = None,
              writable = True\<rparr>"
  have o: "ordered (users ?st)"
    by (simp add: ordered_def)
  have p: "list_all plainEntry (users ?st)"
    by (simp add: plainEntry_def comma_def newline_def)
  have w: "writable ?st"
    by simp
  show ?thesis
    using save_load_roundtrip [OF o p w]
    by (simp add: saveUsers_def comma_def)
qed

text \<open>
  Claim C8. \<^verbatim>\<open>loadUsers\<close> returns on every state and every content of the file, it
  never raises. Without a backing file the state is left as it is. With one, the
  mapping is the old one after \<open>storeLine\<close> on each line in turn. A line with fewer
  than two commas is skipped and leaves the mapping as it is; a line with at least two
  is split at its first two commas into user name, hash and salt, and assigned. A file
  whose lines all have fewer than two commas, loaded into the empty store, gives a count
  of 0.
\<close>

theorem loadUsers_total:
  "(\<exists>st'. loadUsers st = Inr st')
   \<and> (backing st = None \<longrightarrow> loadUsers st = Inr st)
   \<and> (backing st = Some content \<longrightarrow>
        loadUsers st = Inr (st\<lparr>users := foldl storeLine (users st) (fileLines content)\<rparr>))
   \<and> (count_list line comma < 2 \<longrightarrow> parseLine line = Inr None \<and> storeLine us line = us)
   \<and> (2 \<le> count_list line comma \<longrightarrow>
        (\<exists>u h s. line = u @ [comma] @ h @ [comma] @ s \<and> comma \<notin> set u \<and> comma \<notin> set h
           \<and> parseLine line = Inr (Some (u, (h, s))) \<and> storeLine us line = assign u (h, s) us))
   \<and> (list_all (\<lambda>l. count_list l comma < 2) (fileLines content) \<longrightarrow>
        (\<exists>st'. loadUsers (fresh (Some content)) = Inr st' \<and> userCount st' = 0))"
proof -
  have few: "count_list l comma < 2 \<Longrightarrow> storeLine m l = m" for l m
    by (simp add: storeLine_def parseLine_few)
  have skip: "list_all (\<lambda>l. count_list l comma < 2) ls \<Longrightarrow> foldl storeLine m ls = m" for ls m
    by (induction ls arbitrary: m) (simp_all add: few)
  have many: "2 \<le> count_list line comma \<Longrightarrow>
      \<exists>u h s. line = u @ [comma] @ h @ [comma] @ s \<and> comma \<notin> set u \<and> comma \<notin> set h
           \<and> parseLine line = Inr (Some (u, (h, s))) \<and> storeLine us line = assign u (h, s) us"
    using parseLine_many [of line] by (fastforce simp add: storeLine_def)
  have total: "\<exists>st'. loadUsers st = Inr st'"
    by (simp add: loadUsers_def loadLoop_fold split: option.splits)
  show ?thesis
    using total many
    by (simp add: loadUsers_def loadLoop_fold few skip parseLine_few fresh_def userCount_def)
qed

theorem loadUsers_total_witness:
  "loadUsers (fresh None) = Inr (fresh None)
   \<and> parseLine ''justoneusername'' = Inr None
   \<and> storeLine [] ''justoneusername'' = []
   \<and> parseLine ''alice,ab,cd'' = Inr (Some (''alice'', (''ab'', ''cd'')))
   \<and> (\<exists>st'. loadUsers (fresh (Some (''justoneusername'' @ [newline] @ ''bob,ef''))) = Inr st'
              \<and> userCount st' = 0)"
proof -
  let ?content = "''justoneusername'' @ [newline] @ ''bob,ef''"
  have nofile: "backing (fresh None) = None"
    by (simp add: fresh_def)
  have few: "count_list ''justoneusername'' comma < 2"
    by (simp add: comma_def)
  have many: "2 \<le> count_list ''alice,ab,cd'' comma"
    by (simp add: comma_def)
  have parsed: "parseLine ''alice,ab,cd'' = Inr (Some (''alice'', (''ab'', ''cd'')))"
    by code_simp
  have lines: "list_all (\<lambda>l. count_list l comma < 2) (fileLines ?content)"
    by code_simp
  show ?thesis
    using nofile few many parsed lines
      loadUsers_total [of "fresh None" ?content "''justoneusername''" "[]"]
    by simp
qed

text \<open>
  Claim C10. Let a line of the file assign the user name \<open>u\<close> and let no later line
  assign \<open>u\<close>, whatever the earlier lines are. Then \<^verbatim>\<open>loadUsers\<close> returns, the
  credentials of \<open>u\<close> are those of that line, and the mapping holds exactly one entry
  for \<open>u\<close>.
\<close>

theorem load_last_wins:
  assumes "backing st = Some content" and "ordered (users st)"
    and "fileLines content = before @ line # after"
    and "parseLine line = Inr (Some (u, hs))"
    and "list_all (\<lambda>l. lineUser l \<noteq> Some u) after"
  shows "\<exists>st'. loadUsers st = Inr st' \<and> getCredentials st' u = Some hs
           \<and> filter (\<lambda>e. fst e = u) (users st') = [(u, hs)]"
proof -
  let ?us = "foldl storeLine (users st) (fileLines content)"
  have load: "loadUsers st = Inr (st\<lparr>users := ?us\<rparr>)"
    using assms(1) by (simp add: loadUsers_def loadLoop_fold)
  have "?us = foldl storeLine (storeLine (foldl storeLine (users st) before) line) after"
    by (simp add: assms(3))
  then have found: "map_of ?us u = Some hs"
    using foldl_storeLine_other [OF assms(5)] storeLine_this [OF assms(4)] by simp
  have "ordered ?us"
    using assms(2) by (rule ordered_foldl_storeLine)
  from ordered_single [OF this found] found load show ?thesis
    by (simp add: getCredentials_def)
qed

theorem load_last_wins_witness:
  "\<exists>st'. loadUsers (fresh (Some (''bob,1,2'' @ [newline] @ ''bob,5,6'' @ [newline] @ ''alice,3,4'' @ [newline])))
            = Inr st'
         \<and> getCredentials st' ''bob'' = Some (''5'', ''6'')
         \<and> filter (\<lambda>e. fst e = ''bob'') (users st') = [(''bob'', (''5'', ''6''))]"
proof -
  let ?content = "''bob,1,2'' @ [newline] @ ''bob,5,6'' @ [newline] @ ''alice,3,4'' @ [newline]"
  have b: "backing (fresh (Some ?content)) = Some ?content"
    by (simp add: fresh_def)
  have o: "ordered (users (fresh (Some ?content)))"
    by (rule ordered_fresh)
  have l: "fileLines ?content = [''bob,1,2''] @ ''bob,5,6'' # [''alice,3,4'']"
    by code_simp
  have p: "parseLine ''bob,5,6'' = Inr (Some (''bob'', (''5'', ''6'')))"
    by code_simp
  have a: "list_all (\<lambda>l. lineUser l \<noteq> Some ''bob'') [''alice,3,4'']"
    by code_simp
  show ?thesis
    by (rule load_last_wins [OF b o l p a])
qed

section \<open>Registration when the key derivation fails\<close>

text \<open>
  Claim C9 says that a failure of the key derivation during registration is fatal to
  the registration only: it is reported as a failed registration and the program returns
  to the menu. The program at such an input: \<open>alice\<close> registers with a strong
  password, confirmed, and \<^verbatim>\<open>crypto_pwhash\<close> fails. The exception of
  \<^verbatim>\<open>hashPassword\<close> leaves \<^verbatim>\<open>registrationScreen\<close>, and with it \<^verbatim>\<open>main\<close>: the
  process is terminated. A login with the same failing derivation is reported as
  invalid credentials, since \<^verbatim>\<open>verifyPassword\<close> has a handler.
\<close>

theorem registration_hashing_failure:
  "registrationScreen exhaustedSodium (fresh None) ''alice''
       [''Str0ng!Passw0rd'', ''Str0ng!Passw0rd''] (replicate 16 0)
     = Some (Inl HashingFailed)
   \<and> menuTurn exhaustedSodium (fresh None)
       (Register ''alice'' [''Str0ng!Passw0rd'', ''Str0ng!Passw0rd''] (replicate 16 0))
     = Some (Terminated HashingFailed)
   \<and> loginScreen exhaustedSodium
       \<lparr>users = [(''alice'', (''ab'', generateSalt (replicate 16 0)))], backing = None,
        writable = True\<rparr>
       ''alice'' ''Str0ng!Passw0rd''
     = Error ''Invalid credentials''"
  by code_simp

end
